theory Spec2Isabelle
  imports Main
begin

section \<open>Data model of \<open>circuit-breaker.decorator.ts\<close>\<close>

text \<open>
  The event names of \<open>Types.EventType\<close>, a union of fourteen string literals.
\<close>

datatype EventType =
    HalfOpen | Close | Open | Shutdown | Fire | CacheHit | CacheMiss | Reject
  | Timeout | Success | SemaphoreLocked | HealthCheckFailed | Fallback | Failure

text \<open>
  Function values are known by identity only. \<open>UserFn n\<close> is a function written by the
  user of the library; \<open>FireWrapper a\<close> is the closure
  \<^verbatim>\<open>function (...args) { return breaker.fire(...args); }\<close> that the decorator
  stores in the descriptor, closed over the breaker object at heap address \<open>a\<close>.
\<close>

datatype Fn = UserFn nat | FireWrapper nat

datatype JsValue =
    JUndefined
  | JFunction Fn
  | JNumber int
  | JString string
  | JError string
  | JArray "JsValue list"
  | JObject "(string \<times> JsValue) list"

fun is_function :: "JsValue \<Rightarrow> bool" where
  "is_function (JFunction f) = True"
| "is_function v = False"

text \<open>
  A property key is \<open>string | symbol\<close>; \<open>propertyKey.toString()\<close> of a symbol with
  description \<open>d\<close> is the string \<open>Symbol(d)\<close>.
\<close>

datatype PropertyKey = StrKey string | SymKey string

fun toString :: "PropertyKey \<Rightarrow> string" where
  "toString (StrKey s) = s"
| "toString (SymKey d) = ''Symbol('' @ d @ '')''"

text \<open>
  The decorator's \<open>target\<close>: it is read in two ways only, \<open>target.constructor.name\<close>
  and \<open>target[methodName]\<close> with a string key. A property that is absent reads as
  \<open>undefined\<close>.
\<close>

record Target =
  constructor_name :: string
  members :: "PropertyKey \<Rightarrow> JsValue"

record PropertyDescriptor =
  "value" :: JsValue
  writable :: bool
  enumerable :: bool
  configurable :: bool

text \<open>
  The \<open>Options\<close> of the breaker library, with every field optional
  (\<open>None\<close> is \<open>undefined\<close>). \<open>timeout\<close> is \<open>number | false\<close>. Numbers are integers
  here: milliseconds, percentages and counts.
\<close>

datatype TimeoutSetting = Millis int | TimeoutDisabled

record Options =
  status :: "string option"
  timeout :: "TimeoutSetting option"
  maxFailures :: "int option"
  resetTimeout :: "int option"
  rollingCountTimeout :: "int option"
  rollingCountBuckets :: "int option"
  name :: "string option"
  group :: "string option"
  rollingPercentilesEnabled :: "bool option"
  capacity :: "int option"
  errorThresholdPercentage :: "int option"
  enabled :: "bool option"
  allowWarmUp :: "bool option"
  volumeThreshold :: "int option"
  errorFilter :: "Fn option"
  cache :: "bool option"
  cacheTTL :: "int option"
  cacheGetKey :: "Fn option"
  enableSnapshots :: "bool option"

definition empty_options :: Options where
  "empty_options =
     \<lparr> status = None, timeout = None, maxFailures = None, resetTimeout = None,
       rollingCountTimeout = None, rollingCountBuckets = None, name = None, group = None,
       rollingPercentilesEnabled = None, capacity = None, errorThresholdPercentage = None,
       enabled = None, allowWarmUp = None, volumeThreshold = None, errorFilter = None,
       cache = None, cacheTTL = None, cacheGetKey = None, enableSnapshots = None \<rparr>"

section \<open>JavaScript \<open>Map\<close>: insertion-ordered, one value per key\<close>

text \<open>
  A \<open>Map\<close> iterates in insertion order, and \<open>set\<close> on a key that is present replaces
  the value where the key already stands. An association list with these operations:
\<close>

type_synonym ('k, 'v) JsMap = "('k \<times> 'v) list"

definition map_get :: "'k \<Rightarrow> ('k, 'v) JsMap \<Rightarrow> 'v option" where
  "map_get k m = map_of m k"

definition map_has :: "'k \<Rightarrow> ('k, 'v) JsMap \<Rightarrow> bool" where
  "map_has k m = (map_of m k \<noteq> None)"

fun map_set :: "'k \<Rightarrow> 'v \<Rightarrow> ('k, 'v) JsMap \<Rightarrow> ('k, 'v) JsMap" where
  "map_set k v [] = [(k, v)]"
| "map_set k v ((k', v') # m) =
     (if k' = k then (k, v) # m else (k', v') # map_set k v m)"

text \<open>\<open>a ?? b\<close>: the left operand unless it is \<open>undefined\<close>.\<close>

fun nullish :: "'a option \<Rightarrow> 'a \<Rightarrow> 'a" where
  "nullish None d = d"
| "nullish (Some x) d = x"

text \<open>\<open>m.get(k) || new Map()\<close>: a \<open>Map\<close> object is always truthy.\<close>

definition get_or_new :: "'k \<Rightarrow> ('k, ('a, 'b) JsMap) JsMap \<Rightarrow> ('a, 'b) JsMap" where
  "get_or_new k m = (case map_get k m of None \<Rightarrow> [] | Some inner \<Rightarrow> inner)"

section \<open>The registry \<open>events\<close> and the decorator \<open>onEvent\<close>\<close>

text \<open>
  \<open>events\<close>: class name, then circuit group, then event name, to the handler method's name.
\<close>

type_synonym CircuitEvents = "(EventType, string) JsMap"
type_synonym ClassEvents = "(string, CircuitEvents) JsMap"
type_synonym Events = "(string, ClassEvents) JsMap"

text \<open>
  \<open>onEvent({eventName, circuitGroup = "default"})(target, propertyKey)\<close>. The inner maps
  are objects changed in place, so the outer maps keep their key order.
\<close>

definition onEvent ::
  "EventType \<Rightarrow> string option \<Rightarrow> Target \<Rightarrow> PropertyKey \<Rightarrow> Events \<Rightarrow> Events" where
  "onEvent eventName circuitGroup target propertyKey events =
     (let circuitGroup = nullish circuitGroup ''default'';
          className = constructor_name target;
          events = (if \<not> map_has className events then map_set className [] events
                    else events);
          classEvents = get_or_new className events;
          classEvents = (if \<not> map_has circuitGroup classEvents
                         then map_set circuitGroup [] classEvents else classEvents);
          circuitEvents = get_or_new circuitGroup classEvents;
          circuitEvents = map_set eventName (toString propertyKey) circuitEvents
      in map_set className (map_set circuitGroup circuitEvents classEvents) events)"

section \<open>The decorator \<open>CircuitBreaker\<close>\<close>

text \<open>\<open>Types.CircuitBreakerInput\<close>\<close>

record CircuitBreakerInput =
  options :: "Options option"
  circuitGroup :: "string option"

definition MAX_EXECUTION_TIME_MS :: int where "MAX_EXECUTION_TIME_MS = 1000"
definition ERROR_THRESHOLD_PERCENTAGE :: int where "ERROR_THRESHOLD_PERCENTAGE = 20"
definition CIRCUIT_RESET_TIMEOUT_MS :: int where "CIRCUIT_RESET_TIMEOUT_MS = 5000"
definition MIN_REQUEST_COUNT :: int where "MIN_REQUEST_COUNT = 5"

text \<open>The default of the parameter \<open>params\<close>, used when the decorator gets no argument.\<close>

definition default_params :: CircuitBreakerInput where
  "default_params = \<lparr> options = Some empty_options, circuitGroup = Some ''default'' \<rparr>"

text \<open>\<open>params?.options?.f\<close>\<close>

definition option_field :: "(Options \<Rightarrow> 'a option) \<Rightarrow> CircuitBreakerInput \<Rightarrow> 'a option" where
  "option_field f params = (case options params of None \<Rightarrow> None | Some opts \<Rightarrow> f opts)"

text \<open>
  The object literal \<open>opt\<close>: the spread of the given options first, then the five
  fields written after it.
\<close>

definition opt :: "CircuitBreakerInput option \<Rightarrow> Options" where
  "opt params0 =
     (let params = nullish params0 default_params
      in (nullish (options params) empty_options)
           \<lparr> timeout := Some (nullish (option_field timeout params)
                                      (Millis MAX_EXECUTION_TIME_MS)),
             errorThresholdPercentage :=
               Some (nullish (option_field errorThresholdPercentage params)
                             ERROR_THRESHOLD_PERCENTAGE),
             resetTimeout := Some (nullish (option_field resetTimeout params)
                                           CIRCUIT_RESET_TIMEOUT_MS),
             volumeThreshold := Some (nullish (option_field volumeThreshold params)
                                              MIN_REQUEST_COUNT),
             group := Some (nullish (circuitGroup params) ''default'') \<rparr>)"

text \<open>
  A listener given to \<open>breaker.on\<close> is the closure
  \<^verbatim>\<open>async (...args) => eventHandler.call(target, ...args)\<close>: it holds the handler read
  from the target when the decorator ran, and the target. The function given to
  \<open>breaker.fallback\<close> holds the target and the method's name, and reads the method when
  it is called.
\<close>

record Listener =
  handler :: Fn
  this_target :: Target

record FallbackClosure =
  fallback_target :: Target
  fallback_name :: string

text \<open>
  What the decorator does to a breaker object: the constructor's two arguments, the
  \<open>on\<close> calls in the order they are made, and the function set by \<open>fallback\<close>.
\<close>

record Breaker =
  action :: JsValue
  breaker_options :: Options
  listeners :: "(EventType \<times> Listener) list"
  fallback_function :: "FallbackClosure option"

definition new_OpossumCircuitBreaker :: "JsValue \<Rightarrow> Options \<Rightarrow> Breaker" where
  "new_OpossumCircuitBreaker originalMethod opts =
     \<lparr> action = originalMethod, breaker_options = opts, listeners = [],
       fallback_function = None \<rparr>"

definition on :: "EventType \<Rightarrow> Listener \<Rightarrow> Breaker \<Rightarrow> Breaker" where
  "on eventName l breaker = breaker\<lparr> listeners := listeners breaker @ [(eventName, l)] \<rparr>"

definition set_fallback :: "FallbackClosure \<Rightarrow> Breaker \<Rightarrow> Breaker" where
  "set_fallback f breaker = breaker\<lparr> fallback_function := Some f \<rparr>"

text \<open>A string or \<open>undefined\<close> in a condition: true for a string that is not empty.\<close>

fun truthy :: "string option \<Rightarrow> bool" where
  "truthy None = False"
| "truthy (Some s) = (s \<noteq> [])"

text \<open>
  One pass of the body of the loop over \<open>circuitEvents\<close>, with the set
  \<open>registeredEvents\<close> and the breaker as its state: \<open>continue\<close> on the fallback
  entry when there is a fallback method, and otherwise \<open>breaker.on\<close> when the target's
  property is a function and the method's name is not in the set yet.
\<close>

fun loop_body ::
  "Target \<Rightarrow> string option \<Rightarrow> EventType \<times> string \<Rightarrow> string set \<times> Breaker
     \<Rightarrow> string set \<times> Breaker" where
  "loop_body target fallbackMethod (eventName, methodName) (registeredEvents, breaker) =
     (if eventName = Fallback \<and> truthy fallbackMethod then (registeredEvents, breaker)
      else
        (case members target (StrKey methodName) of
           JFunction eventHandler \<Rightarrow>
             if methodName \<notin> registeredEvents
             then (insert methodName registeredEvents,
                   on eventName \<lparr> handler = eventHandler, this_target = target \<rparr> breaker)
             else (registeredEvents, breaker)
         | _ \<Rightarrow> (registeredEvents, breaker)))"

text \<open>The loop: the entries of the map in its iteration order.\<close>

fun register_events ::
  "Target \<Rightarrow> string option \<Rightarrow> CircuitEvents \<Rightarrow> string set \<times> Breaker \<Rightarrow> string set \<times> Breaker"
  where
  "register_events target fallbackMethod [] s = s"
| "register_events target fallbackMethod (entry # rest) s =
     register_events target fallbackMethod rest (loop_body target fallbackMethod entry s)"

text \<open>
  The module's state: the registry \<open>events\<close> and the breaker objects made so far, each
  at the address that is its index.
\<close>

record World =
  events :: Events
  heap :: "Breaker list"

text \<open>
  The last step before the descriptor is changed: \<open>breaker.fallback\<close> is called when
  \<open>fallbackMethod\<close> is truthy and the target's property of that name is a function.
\<close>

definition install_fallback :: "Target \<Rightarrow> string option \<Rightarrow> Breaker \<Rightarrow> Breaker" where
  "install_fallback target fallbackMethod breaker =
     (if truthy fallbackMethod
         \<and> is_function (members target (StrKey (nullish fallbackMethod [])))
      then set_fallback
             \<lparr> fallback_target = target, fallback_name = nullish fallbackMethod [] \<rparr> breaker
      else breaker)"

text \<open>
  \<open>CircuitBreaker(params)(target, propertyKey, descriptor)\<close>. It returns the descriptor
  with its new \<open>value\<close> and the world with the new breaker. \<open>opt.group\<close> has an
  optional type, so the lookup by it has a branch for \<open>undefined\<close>, which \<open>opt\<close>
  never takes.
\<close>

definition CircuitBreaker ::
  "CircuitBreakerInput option \<Rightarrow> Target \<Rightarrow> PropertyKey \<Rightarrow> PropertyDescriptor \<Rightarrow> World
     \<Rightarrow> PropertyDescriptor \<times> World" where
  "CircuitBreaker params target propertyKey descriptor w =
     (let opts = opt params;
          originalMethod = value descriptor;
          breaker = new_OpossumCircuitBreaker originalMethod opts;
          className = constructor_name target;
          classEvents = get_or_new className (events w);
          circuitEvents = (case group opts of
                             None \<Rightarrow> []
                           | Some g \<Rightarrow> get_or_new g classEvents);
          fallbackMethod = map_get Fallback circuitEvents;
          (registeredEvents, breaker) =
             register_events target fallbackMethod circuitEvents ({}, breaker);
          breaker = install_fallback target fallbackMethod breaker;
          address = length (heap w)
      in (descriptor\<lparr> value := JFunction (FireWrapper address) \<rparr>,
          w\<lparr> heap := heap w @ [breaker] \<rparr>))"

section \<open>Reading the result of a decoration\<close>

text \<open>The breaker object that a decoration adds to the heap.\<close>

definition created_breaker ::
  "CircuitBreakerInput option \<Rightarrow> Target \<Rightarrow> PropertyKey \<Rightarrow> PropertyDescriptor \<Rightarrow> World
     \<Rightarrow> Breaker" where
  "created_breaker params target propertyKey descriptor w =
     last (heap (snd (CircuitBreaker params target propertyKey descriptor w)))"

text \<open>The function that a decoration leaves in \<open>descriptor.value\<close>.\<close>

definition wrapped_operation ::
  "CircuitBreakerInput option \<Rightarrow> Target \<Rightarrow> PropertyKey \<Rightarrow> PropertyDescriptor \<Rightarrow> World
     \<Rightarrow> JsValue" where
  "wrapped_operation params target propertyKey descriptor w =
     value (fst (CircuitBreaker params target propertyKey descriptor w))"

text \<open>
  The handlers that a breaker holds for one event name, in the order of the \<open>on\<close>
  calls that attached them.
\<close>

definition handlers_for :: "EventType \<Rightarrow> Breaker \<Rightarrow> Fn list" where
  "handlers_for eventName breaker =
     map (\<lambda>(e, l). handler l) (filter (\<lambda>(e, l). e = eventName) (listeners breaker))"

text \<open>
  The map \<open>circuitEvents\<close> that the registry holds for a class name and a group, as
  both decorators read it.
\<close>

definition circuit_events :: "Events \<Rightarrow> string \<Rightarrow> string \<Rightarrow> CircuitEvents" where
  "circuit_events evs className g = get_or_new g (get_or_new className evs)"

text \<open>The group that a decoration uses: \<open>params?.circuitGroup ?? 'default'\<close>.\<close>

definition group_of :: "CircuitBreakerInput option \<Rightarrow> string" where
  "group_of params = nullish (circuitGroup (nullish params default_params)) ''default''"

text \<open>
  One use of \<open>onEvent\<close>, and the registry after a series of them, starting from the
  empty map that the module creates.
\<close>

record Registration =
  reg_event :: EventType
  reg_group :: "string option"
  reg_target :: Target
  reg_key :: PropertyKey

fun registered :: "Registration list \<Rightarrow> Events \<Rightarrow> Events" where
  "registered [] evs = evs"
| "registered (r # rs) evs =
     registered rs (onEvent (reg_event r) (reg_group r) (reg_target r) (reg_key r) evs)"

text \<open>
  Calling the function in \<open>descriptor.value\<close> with \<open>args\<close>: the wrapper's body is
  \<open>return breaker.fire(...args)\<close>, on the breaker it is closed over. \<open>fire\<close> is the
  library's method and a parameter here; the result type is whatever \<open>fire\<close> gives.
  Only a wrapper that the decorator made can be called this way.
\<close>

definition call_wrapper ::
  "(Breaker \<Rightarrow> JsValue list \<Rightarrow> 'r) \<Rightarrow> World \<Rightarrow> JsValue \<Rightarrow> JsValue list \<Rightarrow> 'r option" where
  "call_wrapper fire w f args =
     (case f of
        JFunction (FireWrapper address) \<Rightarrow>
          if address < length (heap w) then Some (fire (heap w ! address) args) else None
      | _ \<Rightarrow> None)"

text \<open>
  What the caller of the decorator wrote for one option: \<open>None\<close> when the decorator
  got no argument, no \<open>options\<close> object, or an object without that field.
\<close>

definition supplied :: "(Options \<Rightarrow> 'a option) \<Rightarrow> CircuitBreakerInput option \<Rightarrow> 'a option" where
  "supplied f params =
     (case params of
        None \<Rightarrow> None
      | Some p \<Rightarrow> (case options p of None \<Rightarrow> None | Some opts \<Rightarrow> f opts))"

section \<open>The fallback function and the library's \<open>fire\<close>\<close>

text \<open>
  A call of a function settles with a value or with an error raised. What a function of
  the user does is a parameter \<open>call\<close>, of the function, its \<open>this\<close> and its
  arguments.
\<close>

datatype Settled = Fulfilled JsValue | Rejected JsValue

type_synonym UserCall = "Fn \<Rightarrow> Target \<Rightarrow> JsValue list \<Rightarrow> Settled"

text \<open>A parameter that the caller did not pass is \<open>undefined\<close>.\<close>

definition parameter :: "JsValue list \<Rightarrow> nat \<Rightarrow> JsValue" where
  "parameter actuals i = (if i < length actuals then actuals ! i else JUndefined)"

text \<open>
  The function that the decorator gives to \<open>breaker.fallback\<close>:
  \<^verbatim>\<open>async (args, error) => await target[fallbackMethod].call(target, {input: args, err: error})\<close>.
  Calling a property that is not a function raises a \<open>TypeError\<close>.
\<close>

definition call_fallback_closure :: "UserCall \<Rightarrow> FallbackClosure \<Rightarrow> JsValue list \<Rightarrow> Settled" where
  "call_fallback_closure call fb actuals =
     (let args = parameter actuals 0;
          error = parameter actuals 1
      in case members (fallback_target fb) (StrKey (fallback_name fb)) of
           JFunction f \<Rightarrow>
             call f (fallback_target fb) [JObject [(''input'', args), (''err'', error)]]
         | _ \<Rightarrow> Rejected (JError ''TypeError''))"

text \<open>
  Modelled from the spec: the body of the breaker's \<open>fire\<close> belongs to the library that
  the decorator imports and is not among the sources. Sections 4.3 and 4.5 of the
  specification give its routing: steps 1 to 5 of the Execution Gate end in a value or in
  one of the four failures (open, capacity, timeout, operation failure), here the parameter
  \<open>gate\<close>; on a failure the one fallback function, when there is one, is invoked, and
  "its return value, or an error it itself raises, becomes the Gate's final outcome for
  that call. If no fallback is registered, the Gate's error propagates to the caller
  unchanged." The library applies the fallback function to the arguments of the call
  followed by the error, \<open>(...args, err)\<close>. With this convention the first parameter of
  the decorator's closure is, for a method of one argument, "the input data that was passed
  to the original method", and the second "the error that caused the fallback to trigger",
  as \<open>Types.OnFallbackInput\<close> and the README document them.
\<close>

definition fire ::
  "UserCall \<Rightarrow> (Breaker \<Rightarrow> JsValue list \<Rightarrow> Settled) \<Rightarrow> Breaker \<Rightarrow> JsValue list \<Rightarrow> Settled"
  where
  "fire call gate breaker args =
     (case gate breaker args of
        Fulfilled v \<Rightarrow> Fulfilled v
      | Rejected err \<Rightarrow>
          (case fallback_function breaker of
             None \<Rightarrow> Rejected err
           | Some fb \<Rightarrow> call_fallback_closure call fb (args @ [err])))"

section \<open>A class to run the decorators on\<close>

text \<open>
  The class of the README: the guarded method \<open>getComments\<close> and the handlers
  \<open>fallback\<close>, \<open>halfOpenEvent\<close>, \<open>closeEvent\<close> and \<open>openEvent\<close>.
\<close>

definition MyService :: Target where
  "MyService =
     \<lparr> constructor_name = ''MyService'',
       members = (\<lambda>key. JUndefined)
         (StrKey ''getComments'' := JFunction (UserFn 0),
          StrKey ''fallback'' := JFunction (UserFn 1),
          StrKey ''halfOpenEvent'' := JFunction (UserFn 2),
          StrKey ''closeEvent'' := JFunction (UserFn 3),
          StrKey ''openEvent'' := JFunction (UserFn 4)) \<rparr>"

text \<open>
  Another class with the same name, as a second module may declare one: its
  \<open>openEvent\<close> is a function of its own, and it has no \<open>getComments\<close>.
\<close>

definition MyService_of_other_module :: Target where
  "MyService_of_other_module =
     \<lparr> constructor_name = ''MyService'',
       members = (\<lambda>key. JUndefined)
         (StrKey ''openEvent'' := JFunction (UserFn 9)) \<rparr>"

definition getComments_descriptor :: PropertyDescriptor where
  "getComments_descriptor =
     \<lparr> value = JFunction (UserFn 0), writable = True, enumerable = False,
       configurable = True \<rparr>"

definition empty_world :: World where
  "empty_world = \<lparr> events = [], heap = [] \<rparr>"

text \<open>The parameters of the README's example of the decorator.\<close>

definition apiRequests_params :: "CircuitBreakerInput option" where
  "apiRequests_params =
     Some \<lparr> options = Some (empty_options\<lparr> timeout := Some (Millis 5000) \<rparr>),
            circuitGroup = Some ''apiRequests'' \<rparr>"

text \<open>
  An Execution Gate that ends every call in a timeout, and a user function that answers
  with the arguments it was given.
\<close>

definition timed_out :: "Breaker \<Rightarrow> JsValue list \<Rightarrow> Settled" where
  "timed_out breaker args = Rejected (JError ''TimeoutError'')"

definition echo :: UserCall where
  "echo f this actuals = Fulfilled (JArray actuals)"

section \<open>The \<open>Map\<close> operations and the registry\<close>

lemma map_of_map_set: "map_of (map_set k v m) = (map_of m)(k \<mapsto> v)"
  by (induction m) (auto simp: fun_eq_iff)

lemma get_or_new_map_set:
  "get_or_new k' (map_set k v m) = (if k' = k then v else get_or_new k' m)"
  by (simp add: get_or_new_def map_get_def map_of_map_set)

lemma get_or_new_Nil [simp]: "get_or_new k [] = []"
  by (simp add: get_or_new_def map_get_def)

lemma get_or_new_Cons [simp]:
  "get_or_new k ((k', v) # m) = (if k' = k then v else get_or_new k m)"
  by (simp add: get_or_new_def map_get_def)

lemma get_or_new_absent: "\<not> map_has k m \<Longrightarrow> get_or_new k m = []"
  by (simp add: get_or_new_def map_get_def map_has_def)

lemma circuit_events_onEvent:
  "circuit_events (onEvent e g t k evs) cn g' =
     (if cn = constructor_name t \<and> g' = nullish g ''default''
      then map_set e (toString k) (circuit_events evs cn g')
      else circuit_events evs cn g')"
  by (auto simp: circuit_events_def onEvent_def Let_def get_or_new_map_set get_or_new_absent)

lemma group_opt: "group (opt params) = Some (group_of params)"
  by (simp add: opt_def group_of_def Let_def)

lemma heap_CircuitBreaker:
  "heap (snd (CircuitBreaker p t k d w)) = heap w @ [created_breaker p t k d w]"
  by (simp add: CircuitBreaker_def created_breaker_def Let_def split: prod.splits)

lemma events_CircuitBreaker: "events (snd (CircuitBreaker p t k d w)) = events w"
  by (simp add: CircuitBreaker_def Let_def split: prod.splits)

lemma wrapped_operation_eq:
  "wrapped_operation p t k d w = JFunction (FireWrapper (length (heap w)))"
  by (simp add: wrapped_operation_def CircuitBreaker_def Let_def split: prod.splits)

lemma created_breaker_eq:
  "created_breaker p t k d w =
     (let ce = circuit_events (events w) (constructor_name t) (group_of p);
          fm = map_get Fallback ce
      in install_fallback t fm
           (snd (register_events t fm ce ({}, new_OpossumCircuitBreaker (value d) (opt p)))))"
  by (simp add: created_breaker_def CircuitBreaker_def Let_def group_opt circuit_events_def install_fallback_def
      split: prod.splits)


lemma loop_body_attach:
  "\<not> (e = Fallback \<and> truthy fm) \<Longrightarrow> members t (StrKey m) = JFunction f \<Longrightarrow> m \<notin> reg \<Longrightarrow>
   loop_body t fm (e, m) (reg, b) = (insert m reg, on e \<lparr> handler = f, this_target = t \<rparr> b)"
  by auto

lemma loop_body_skip:
  "(e = Fallback \<and> truthy fm) \<or> \<not> is_function (members t (StrKey m)) \<or> m \<in> reg \<Longrightarrow>
   loop_body t fm (e, m) (reg, b) = (reg, b)"
  by (cases "members t (StrKey m)") auto

lemma loop_body_cases:
  "loop_body t fm (e, m) (reg, b) = (reg, b)
   \<or> (\<exists>f. \<not> (e = Fallback \<and> truthy fm) \<and> members t (StrKey m) = JFunction f \<and> m \<notin> reg
          \<and> loop_body t fm (e, m) (reg, b)
              = (insert m reg, on e \<lparr> handler = f, this_target = t \<rparr> b))"
  by (cases "members t (StrKey m)") auto

declare loop_body.simps [simp del]

lemma register_events_append:
  "register_events t fm (xs @ ys) s = register_events t fm ys (register_events t fm xs s)"
  by (induction xs arbitrary: s) auto

lemma register_events_fields:
  "action (snd (register_events t fm ce (reg, b))) = action b
   \<and> breaker_options (snd (register_events t fm ce (reg, b))) = breaker_options b
   \<and> fallback_function (snd (register_events t fm ce (reg, b))) = fallback_function b"
proof (induction ce arbitrary: reg b)
  case Nil
  show ?case by simp
next
  case (Cons entry ce)
  obtain e m where entry: "entry = (e, m)" by (cases entry)
  from loop_body_cases [of t fm e m reg b] show ?case
    using Cons.IH by (auto simp: entry on_def)
qed

lemma register_events_origin:
  "(e, l) \<in> set (listeners (snd (register_events t fm ce (reg, b)))) \<Longrightarrow>
   (e, l) \<in> set (listeners b)
   \<or> (\<exists>m f. (e, m) \<in> set ce \<and> members t (StrKey m) = JFunction f
          \<and> l = \<lparr> handler = f, this_target = t \<rparr> \<and> \<not> (e = Fallback \<and> truthy fm))"
proof (induction ce arbitrary: reg b)
  case Nil
  then show ?case by simp
next
  case (Cons entry ce)
  obtain e' m' where entry: "entry = (e', m')" by (cases entry)
  from loop_body_cases [of t fm e' m' reg b] show ?case
  proof
    assume "loop_body t fm (e', m') (reg, b) = (reg, b)"
    with Cons.prems Cons.IH [of reg b] show ?thesis by (auto simp: entry)
  next
    assume "\<exists>f. \<not> (e' = Fallback \<and> truthy fm) \<and> members t (StrKey m') = JFunction f \<and> m' \<notin> reg
          \<and> loop_body t fm (e', m') (reg, b)
              = (insert m' reg, on e' \<lparr> handler = f, this_target = t \<rparr> b)"
    then obtain f where f: "\<not> (e' = Fallback \<and> truthy fm)" "members t (StrKey m') = JFunction f"
      "loop_body t fm (e', m') (reg, b)
              = (insert m' reg, on e' \<lparr> handler = f, this_target = t \<rparr> b)" by blast
    from Cons.prems have "(e, l) \<in> set (listeners (snd (register_events t fm ce
         (insert m' reg, on e' \<lparr> handler = f, this_target = t \<rparr> b))))"
      by (simp add: entry f(3))
    from Cons.IH [OF this] f(1,2) show ?thesis
      by (auto simp: entry on_def)
  qed
qed

lemma register_events_registered:
  "reg \<subseteq> fst (register_events t fm ce (reg, b))
   \<and> fst (register_events t fm ce (reg, b)) \<subseteq> reg \<union> snd ` set ce"
proof (induction ce arbitrary: reg b)
  case Nil
  show ?case by simp
next
  case (Cons entry ce)
  obtain e m where entry: "entry = (e, m)" by (cases entry)
  from loop_body_cases [of t fm e m reg b] show ?case
  proof
    assume "loop_body t fm (e, m) (reg, b) = (reg, b)"
    with Cons.IH [of reg b] show ?thesis by (auto simp: entry)
  next
    assume "\<exists>f. \<not> (e = Fallback \<and> truthy fm) \<and> members t (StrKey m) = JFunction f \<and> m \<notin> reg
          \<and> loop_body t fm (e, m) (reg, b)
              = (insert m reg, on e \<lparr> handler = f, this_target = t \<rparr> b)"
    then obtain f where f: "loop_body t fm (e, m) (reg, b)
              = (insert m reg, on e \<lparr> handler = f, this_target = t \<rparr> b)" by blast
    from Cons.IH [of "insert m reg" "on e \<lparr> handler = f, this_target = t \<rparr> b"]
    show ?thesis by (auto simp: entry f)
  qed
qed

lemma handlers_for_on:
  "handlers_for e (on e' l b) = handlers_for e b @ (if e' = e then [handler l] else [])"
  by (simp add: handlers_for_def on_def)

lemma handlers_for_count:
  "length (handlers_for e (snd (register_events t fm ce (reg, b))))
     \<le> length (handlers_for e b) + length (filter (\<lambda>(e', m). e' = e) ce)"
proof (induction ce arbitrary: reg b)
  case Nil
  show ?case by simp
next
  case (Cons entry ce)
  obtain e' m where entry: "entry = (e', m)" by (cases entry)
  from loop_body_cases [of t fm e' m reg b] show ?case
  proof
    assume "loop_body t fm (e', m) (reg, b) = (reg, b)"
    with Cons.IH [of reg b] show ?thesis by (auto simp: entry)
  next
    assume "\<exists>f. \<not> (e' = Fallback \<and> truthy fm) \<and> members t (StrKey m) = JFunction f \<and> m \<notin> reg
          \<and> loop_body t fm (e', m) (reg, b)
              = (insert m reg, on e' \<lparr> handler = f, this_target = t \<rparr> b)"
    then obtain f where f: "loop_body t fm (e', m) (reg, b)
              = (insert m reg, on e' \<lparr> handler = f, this_target = t \<rparr> b)" by blast
    from Cons.IH [of "insert m reg" "on e' \<lparr> handler = f, this_target = t \<rparr> b"]
    show ?thesis by (auto simp: entry f handlers_for_on)
  qed
qed

lemma handlers_for_no_key:
  "e \<notin> fst ` set ce \<Longrightarrow>
   handlers_for e (snd (register_events t fm ce (reg, b))) = handlers_for e b"
proof (induction ce arbitrary: reg b)
  case Nil
  show ?case by simp
next
  case (Cons entry ce)
  obtain e' m where entry: "entry = (e', m)" by (cases entry)
  from Cons.prems have ne: "e' \<noteq> e" and rest: "e \<notin> fst ` set ce" by (auto simp: entry)
  from loop_body_cases [of t fm e' m reg b] show ?case
  proof
    assume "loop_body t fm (e', m) (reg, b) = (reg, b)"
    with Cons.IH [OF rest, of reg b] show ?thesis by (simp add: entry)
  next
    assume "\<exists>f. \<not> (e' = Fallback \<and> truthy fm) \<and> members t (StrKey m) = JFunction f \<and> m \<notin> reg
          \<and> loop_body t fm (e', m) (reg, b)
              = (insert m reg, on e' \<lparr> handler = f, this_target = t \<rparr> b)"
    then obtain f where f: "loop_body t fm (e', m) (reg, b)
              = (insert m reg, on e' \<lparr> handler = f, this_target = t \<rparr> b)" by blast
    from Cons.IH [OF rest, of "insert m reg" "on e' \<lparr> handler = f, this_target = t \<rparr> b"] ne
    show ?thesis by (simp add: entry f handlers_for_on)
  qed
qed


lemma map_fst_map_set:
  "map fst (map_set k v m) = (if k \<in> fst ` set m then map fst m else map fst m @ [k])"
  by (induction m) force+

lemma distinct_map_set: "distinct (map fst m) \<Longrightarrow> distinct (map fst (map_set k v m))"
  by (simp add: map_fst_map_set)

lemma circuit_events_Nil [simp]: "circuit_events [] cn g = []"
  by (simp add: circuit_events_def)

lemma distinct_registered:
  "(\<And>cn g. distinct (map fst (circuit_events evs cn g))) \<Longrightarrow>
   distinct (map fst (circuit_events (registered rs evs) cn g))"
proof (induction rs arbitrary: evs)
  case Nil
  then show ?case by simp
next
  case (Cons r rs)
  show ?case
    unfolding registered.simps
    by (rule Cons.IH) (simp add: circuit_events_onEvent distinct_map_set Cons.prems)
qed

lemma distinct_registered_empty:
  "distinct (map fst (circuit_events (registered rs []) cn g))"
  by (rule distinct_registered) simp

lemma filter_key_distinct:
  "distinct (map fst ce) \<Longrightarrow> length (filter (\<lambda>(e', m). e' = e) ce) \<le> 1"
proof (induction ce)
  case Nil
  show ?case by simp
next
  case (Cons entry ce)
  obtain e' m where entry: "entry = (e', m)" by (cases entry)
  show ?case
  proof (cases "e' = e")
    case True
    with Cons.prems have "e \<notin> fst ` set ce" by (simp add: entry)
    then have "filter (\<lambda>(e', m). e' = e) ce = []"
      by (force simp: filter_empty_conv)
    with True show ?thesis by (simp add: entry)
  next
    case False
    with Cons show ?thesis by (simp add: entry)
  qed
qed

lemma handlers_for_new [simp]: "handlers_for e (new_OpossumCircuitBreaker a opts) = []"
  by (simp add: handlers_for_def new_OpossumCircuitBreaker_def)

lemma listeners_install_fallback [simp]: "listeners (install_fallback t fm b) = listeners b"
  by (simp add: install_fallback_def set_fallback_def)

lemma handlers_for_install_fallback [simp]:
  "handlers_for e (install_fallback t fm b) = handlers_for e b"
  by (simp add: handlers_for_def)

lemma created_handlers_at_most_one:
  assumes "distinct (map fst (circuit_events (events w) (constructor_name t) (group_of p)))"
  shows "length (handlers_for e (created_breaker p t k d w)) \<le> 1"
proof -
  let ?ce = "circuit_events (events w) (constructor_name t) (group_of p)"
  have "length (handlers_for e (snd (register_events t (map_get Fallback ?ce) ?ce
           ({}, new_OpossumCircuitBreaker (value d) (opt p)))))
        \<le> 0 + length (filter (\<lambda>(e', m). e' = e) ?ce)"
    using handlers_for_count [of e t "map_get Fallback ?ce" ?ce "{}"
            "new_OpossumCircuitBreaker (value d) (opt p)"] by simp
  also have "\<dots> \<le> 1" using filter_key_distinct [OF assms] by simp
  finally show ?thesis by (simp add: created_breaker_eq Let_def)
qed

lemma created_handlers_origin:
  assumes "f \<in> set (handlers_for e (created_breaker p t k d w))"
  shows "\<exists>m. (e, m) \<in> set (circuit_events (events w) (constructor_name t) (group_of p))
             \<and> members t (StrKey m) = JFunction f"
proof -
  let ?ce = "circuit_events (events w) (constructor_name t) (group_of p)"
  let ?b = "snd (register_events t (map_get Fallback ?ce) ?ce
           ({}, new_OpossumCircuitBreaker (value d) (opt p)))"
  from assms obtain l where l: "(e, l) \<in> set (listeners ?b)" "handler l = f"
    by (auto simp: created_breaker_eq Let_def handlers_for_def)
  from register_events_origin [OF l(1)] l(2) show ?thesis
    by (auto simp: new_OpossumCircuitBreaker_def)
qed


lemma breaker_options_install_fallback [simp]:
  "breaker_options (install_fallback t fm b) = breaker_options b"
  by (simp add: install_fallback_def set_fallback_def)

lemma breaker_options_created: "breaker_options (created_breaker p t k d w) = opt p"
  by (simp add: created_breaker_eq Let_def register_events_fields new_OpossumCircuitBreaker_def)

section \<open>The options of the breaker\<close>

text \<open>
  Claim C3. For every configuration passed to the decorator, each of the four options
  \<open>timeout\<close>, \<open>errorThresholdPercentage\<close>, \<open>resetTimeout\<close> and \<open>volumeThreshold\<close> that
  the caller left out is given its default (1000 ms, 20, 5000 ms, 5) in the options the
  breaker is constructed with, and each one that the caller supplied keeps the supplied
  value.
\<close>

theorem option_defaults_filled_and_supplied_kept:
  "(supplied timeout params = None \<longrightarrow>
      timeout (breaker_options (created_breaker params target propertyKey descriptor w))
        = Some (Millis 1000))
   \<and> (\<forall>v. supplied timeout params = Some v \<longrightarrow>
      timeout (breaker_options (created_breaker params target propertyKey descriptor w))
        = Some v)
   \<and> (supplied errorThresholdPercentage params = None \<longrightarrow>
      errorThresholdPercentage
        (breaker_options (created_breaker params target propertyKey descriptor w)) = Some 20)
   \<and> (\<forall>v. supplied errorThresholdPercentage params = Some v \<longrightarrow>
      errorThresholdPercentage
        (breaker_options (created_breaker params target propertyKey descriptor w)) = Some v)
   \<and> (supplied resetTimeout params = None \<longrightarrow>
      resetTimeout (breaker_options (created_breaker params target propertyKey descriptor w))
        = Some 5000)
   \<and> (\<forall>v. supplied resetTimeout params = Some v \<longrightarrow>
      resetTimeout (breaker_options (created_breaker params target propertyKey descriptor w))
        = Some v)
   \<and> (supplied volumeThreshold params = None \<longrightarrow>
      volumeThreshold (breaker_options (created_breaker params target propertyKey descriptor w))
        = Some 5)
   \<and> (\<forall>v. supplied volumeThreshold params = Some v \<longrightarrow>
      volumeThreshold (breaker_options (created_breaker params target propertyKey descriptor w))
        = Some v)"
proof (cases params)
  case None
  then show ?thesis
    by (simp add: breaker_options_created supplied_def opt_def option_field_def
        default_params_def empty_options_def MAX_EXECUTION_TIME_MS_def
        ERROR_THRESHOLD_PERCENTAGE_def CIRCUIT_RESET_TIMEOUT_MS_def MIN_REQUEST_COUNT_def)
next
  case (Some p)
  show ?thesis
  proof (cases "options p")
    case None
    with Some show ?thesis
      by (simp add: breaker_options_created supplied_def opt_def option_field_def
          empty_options_def MAX_EXECUTION_TIME_MS_def
          ERROR_THRESHOLD_PERCENTAGE_def CIRCUIT_RESET_TIMEOUT_MS_def MIN_REQUEST_COUNT_def)
  next
    case (Some opts)
    with \<open>params = Some p\<close> show ?thesis
      by (auto simp: breaker_options_created supplied_def opt_def option_field_def
          MAX_EXECUTION_TIME_MS_def
          ERROR_THRESHOLD_PERCENTAGE_def CIRCUIT_RESET_TIMEOUT_MS_def MIN_REQUEST_COUNT_def)
  qed
qed

text \<open>
  The README's parameters supply a timeout of 5000 ms and nothing else: the timeout is
  kept and the other three options get their defaults.
\<close>

theorem option_defaults_filled_and_supplied_kept_witness:
  "supplied timeout apiRequests_params = Some (Millis 5000)
   \<and> supplied errorThresholdPercentage apiRequests_params = None
   \<and> supplied resetTimeout apiRequests_params = None
   \<and> supplied volumeThreshold apiRequests_params = None
   \<and> timeout (breaker_options (created_breaker apiRequests_params MyService
          (StrKey ''getComments'') getComments_descriptor empty_world)) = Some (Millis 5000)
   \<and> errorThresholdPercentage (breaker_options (created_breaker apiRequests_params MyService
          (StrKey ''getComments'') getComments_descriptor empty_world)) = Some 20
   \<and> resetTimeout (breaker_options (created_breaker apiRequests_params MyService
          (StrKey ''getComments'') getComments_descriptor empty_world)) = Some 5000
   \<and> volumeThreshold (breaker_options (created_breaker apiRequests_params MyService
          (StrKey ''getComments'') getComments_descriptor empty_world)) = Some 5"
  using option_defaults_filled_and_supplied_kept [of apiRequests_params MyService
          "StrKey ''getComments''" getComments_descriptor empty_world]
  by (simp add: supplied_def apiRequests_params_def empty_options_def)

text \<open>
  Claim C9. The group of the breaker is the decorator's \<open>circuitGroup\<close> parameter, or
  \<open>default\<close> when the decorator has no argument or no \<open>circuitGroup\<close>, whatever the
  \<open>options\<close> object holds; a \<open>group\<close> field inside \<open>options\<close> changes nothing.
\<close>

theorem group_is_circuitGroup_parameter:
  "group (breaker_options (created_breaker None target propertyKey descriptor w))
     = Some ''default''
   \<and> group (breaker_options (created_breaker
         (Some \<lparr> options = given, circuitGroup = None \<rparr>) target propertyKey descriptor w))
     = Some ''default''
   \<and> group (breaker_options (created_breaker
         (Some \<lparr> options = given, circuitGroup = Some g \<rparr>) target propertyKey descriptor w))
     = Some g
   \<and> group (breaker_options (created_breaker
         (Some \<lparr> options = Some (opts\<lparr> group := Some inner \<rparr>), circuitGroup = cg \<rparr>)
         target propertyKey descriptor w))
     = group (breaker_options (created_breaker
         (Some \<lparr> options = Some (opts\<lparr> group := None \<rparr>), circuitGroup = cg \<rparr>)
         target propertyKey descriptor w))"
  by (simp add: breaker_options_created group_opt group_of_def default_params_def)

section \<open>One breaker for each decoration\<close>

text \<open>
  Claim C1, amended. Each application of the decorator constructs a breaker of its own:
  the heap keeps the breakers it had and gets one new object, the wrapped operation fires
  that new object, and the wrapped operation of any later decoration, whatever its class
  and group, fires a different one.
\<close>

theorem each_decoration_makes_its_own_breaker:
  "heap (snd (CircuitBreaker params target propertyKey descriptor w))
     = heap w @ [created_breaker params target propertyKey descriptor w]
   \<and> wrapped_operation params target propertyKey descriptor w
     = JFunction (FireWrapper (length (heap w)))
   \<and> wrapped_operation params' target' propertyKey' descriptor'
         (snd (CircuitBreaker params target propertyKey descriptor w))
     \<noteq> wrapped_operation params target propertyKey descriptor w"
  by (simp add: heap_CircuitBreaker wrapped_operation_eq)

text \<open>
  Claim C1 as stated fails: decorating twice in the same class with the same (default)
  group gives two wrapped operations, on the breakers at addresses 0 and 1, and a heap of
  two breaker objects.
\<close>

theorem same_group_shares_breaker_counterexample:
  "wrapped_operation None MyService (StrKey ''getComments'') getComments_descriptor empty_world
     = JFunction (FireWrapper 0)
   \<and> wrapped_operation None MyService (StrKey ''getComments'') getComments_descriptor
       (snd (CircuitBreaker None MyService (StrKey ''getComments'') getComments_descriptor
          empty_world))
     = JFunction (FireWrapper 1)
   \<and> length (heap (snd (CircuitBreaker None MyService (StrKey ''getComments'')
         getComments_descriptor
         (snd (CircuitBreaker None MyService (StrKey ''getComments'') getComments_descriptor
            empty_world))))) = 2"
  by (simp add: heap_CircuitBreaker wrapped_operation_eq empty_world_def)

section \<open>The wrapped operation\<close>



section \<open>Listeners and the circuit they are registered for\<close>

lemma circuit_events_unchanged:
  "constructor_name tgt \<noteq> cn \<or> nullish g ''default'' \<noteq> g' \<Longrightarrow>
   circuit_events (onEvent e g tgt key evs) cn g' = circuit_events evs cn g'"
  by (auto simp: circuit_events_onEvent)

lemma created_listeners_origin:
  assumes "(e, l) \<in> set (listeners (created_breaker p t k d w))"
  shows "this_target l = t
         \<and> (\<exists>m. (e, m) \<in> set (circuit_events (events w) (constructor_name t) (group_of p))
                  \<and> members t (StrKey m) = JFunction (handler l))"
proof -
  let ?ce = "circuit_events (events w) (constructor_name t) (group_of p)"
  from assms have "(e, l) \<in> set (listeners (snd (register_events t (map_get Fallback ?ce) ?ce
           ({}, new_OpossumCircuitBreaker (value d) (opt p)))))"
    by (simp add: created_breaker_eq Let_def)
  from register_events_origin [OF this] show ?thesis
    by (auto simp: new_OpossumCircuitBreaker_def)
qed

text \<open>The equations that run a decoration on the example class.\<close>

lemmas eval_decoration =
  created_breaker_eq circuit_events_def onEvent_def map_has_def map_get_def
  install_fallback_def set_fallback_def new_OpossumCircuitBreaker_def on_def
  handlers_for_def group_of_def default_params_def loop_body.simps Let_def
  MyService_def getComments_descriptor_def empty_world_def

section \<open>One handler for each event name\<close>

text \<open>
  Claim C2 as stated fails: after \<open>openEvent\<close> and then \<open>closeEvent\<close> are registered for
  the event \<open>open\<close> of the same class and group, the registry holds \<open>closeEvent\<close> alone for
  it, and the breaker gets the one listener \<open>closeEvent\<close> (function 3), not \<open>openEvent\<close>
  (function 4) followed by \<open>closeEvent\<close>.
\<close>

theorem second_listener_retained_counterexample:
  "map_get Open (circuit_events
       (registered [\<lparr> reg_event = Open, reg_group = None, reg_target = MyService,
                      reg_key = StrKey ''openEvent'' \<rparr>,
                    \<lparr> reg_event = Open, reg_group = None, reg_target = MyService,
                      reg_key = StrKey ''closeEvent'' \<rparr>] [])
       ''MyService'' ''default'') = Some ''closeEvent''
   \<and> handlers_for Open
       (created_breaker None MyService (StrKey ''getComments'') getComments_descriptor
          (empty_world\<lparr> events :=
             registered [\<lparr> reg_event = Open, reg_group = None, reg_target = MyService,
                            reg_key = StrKey ''openEvent'' \<rparr>,
                          \<lparr> reg_event = Open, reg_group = None, reg_target = MyService,
                            reg_key = StrKey ''closeEvent'' \<rparr>] [] \<rparr>))
     = [UserFn 3]"
  by (simp add: eval_decoration)


lemma map_get_map_set_same: "map_get k (map_set k v m) = Some v"
  by (simp add: map_get_def map_of_map_set)

lemma map_get_of_entry:
  "distinct (map fst m) \<Longrightarrow> (k, v) \<in> set m \<Longrightarrow> map_get k m = Some v"
  by (simp add: map_get_def)

text \<open>
  Claim C2, amended. The registry keeps one handler name for each class, group and event
  name: after a registration the entry of that event name is the method just registered,
  whatever was registered before. So a breaker made after any series of registrations has
  at most one listener for an event name, and that listener is the method the registry
  holds for it, the one registered last.
\<close>

theorem last_registration_replaces_earlier:
  "map_get eventName
     (circuit_events (onEvent eventName g tgt key evs) (constructor_name tgt)
        (nullish g ''default''))
     = Some (toString key)
   \<and> length (handlers_for eventName
        (created_breaker params target propertyKey descriptor
           (w\<lparr> events := registered rs [] \<rparr>))) \<le> 1
   \<and> (\<forall>f \<in> set (handlers_for eventName
          (created_breaker params target propertyKey descriptor
             (w\<lparr> events := registered rs [] \<rparr>))).
        \<exists>m. map_get eventName
               (circuit_events (registered rs []) (constructor_name target) (group_of params))
               = Some m
             \<and> members target (StrKey m) = JFunction f)"
proof (intro conjI ballI)
  show "map_get eventName
     (circuit_events (onEvent eventName g tgt key evs) (constructor_name tgt)
        (nullish g ''default''))
     = Some (toString key)"
    by (simp add: circuit_events_onEvent map_get_map_set_same)
next
  show "length (handlers_for eventName
        (created_breaker params target propertyKey descriptor
           (w\<lparr> events := registered rs [] \<rparr>))) \<le> 1"
    by (rule created_handlers_at_most_one) (simp add: distinct_registered_empty)
next
  fix f
  assume "f \<in> set (handlers_for eventName
          (created_breaker params target propertyKey descriptor
             (w\<lparr> events := registered rs [] \<rparr>)))"
  from created_handlers_origin [OF this]
  obtain m where m: "(eventName, m) \<in> set (circuit_events (registered rs [])
                        (constructor_name target) (group_of params))"
    and f: "members target (StrKey m) = JFunction f"
    by auto
  from map_get_of_entry [OF distinct_registered_empty m] f
  show "\<exists>m. map_get eventName
               (circuit_events (registered rs []) (constructor_name target) (group_of params))
               = Some m
             \<and> members target (StrKey m) = JFunction f"
    by blast
qed

text \<open>
  With \<open>openEvent\<close> and then \<open>closeEvent\<close> registered for \<open>open\<close>, the listener is
  \<open>closeEvent\<close>.
\<close>

theorem last_registration_replaces_earlier_witness:
  "UserFn 3 \<in> set (handlers_for Open
       (created_breaker None MyService (StrKey ''getComments'') getComments_descriptor
          (empty_world\<lparr> events :=
             registered [\<lparr> reg_event = Open, reg_group = None, reg_target = MyService,
                            reg_key = StrKey ''openEvent'' \<rparr>,
                          \<lparr> reg_event = Open, reg_group = None, reg_target = MyService,
                            reg_key = StrKey ''closeEvent'' \<rparr>] [] \<rparr>)))
   \<and> (\<exists>m. map_get Open
          (circuit_events
             (registered [\<lparr> reg_event = Open, reg_group = None, reg_target = MyService,
                            reg_key = StrKey ''openEvent'' \<rparr>,
                          \<lparr> reg_event = Open, reg_group = None, reg_target = MyService,
                            reg_key = StrKey ''closeEvent'' \<rparr>] [])
             (constructor_name MyService) (group_of None)) = Some m
        \<and> members MyService (StrKey m) = JFunction (UserFn 3))"
proof -
  have member: "UserFn 3 \<in> set (handlers_for Open
       (created_breaker None MyService (StrKey ''getComments'') getComments_descriptor
          (empty_world\<lparr> events :=
             registered [\<lparr> reg_event = Open, reg_group = None, reg_target = MyService,
                            reg_key = StrKey ''openEvent'' \<rparr>,
                          \<lparr> reg_event = Open, reg_group = None, reg_target = MyService,
                            reg_key = StrKey ''closeEvent'' \<rparr>] [] \<rparr>)))"
    by (simp add: eval_decoration)
  from last_registration_replaces_earlier
    [where eventName = Open and params = None and target = MyService
       and propertyKey = "StrKey ''getComments''" and descriptor = getComments_descriptor
       and w = empty_world
       and rs = "[\<lparr> reg_event = Open, reg_group = None, reg_target = MyService,
                     reg_key = StrKey ''openEvent'' \<rparr>,
                   \<lparr> reg_event = Open, reg_group = None, reg_target = MyService,
                     reg_key = StrKey ''closeEvent'' \<rparr>]"]
    member
  show ?thesis by blast
qed


section \<open>One handler under two event names\<close>

text \<open>
  Claim C10 as stated fails when one of the two event names is \<open>fallback\<close>: with the
  method \<open>fallback\<close> registered for \<open>fallback\<close> and then for \<open>failure\<close>, the loop passes over
  the first entry and attaches the method for the second event name, \<open>failure\<close>.
\<close>

theorem shared_handler_second_event_counterexample:
  "circuit_events
     (registered [\<lparr> reg_event = Fallback, reg_group = None, reg_target = MyService,
                    reg_key = StrKey ''fallback'' \<rparr>,
                  \<lparr> reg_event = Failure, reg_group = None, reg_target = MyService,
                    reg_key = StrKey ''fallback'' \<rparr>] [])
     ''MyService'' ''default''
     = [(Fallback, ''fallback''), (Failure, ''fallback'')]
   \<and> handlers_for Fallback
       (created_breaker None MyService (StrKey ''getComments'') getComments_descriptor
          (empty_world\<lparr> events :=
             registered [\<lparr> reg_event = Fallback, reg_group = None, reg_target = MyService,
                            reg_key = StrKey ''fallback'' \<rparr>,
                          \<lparr> reg_event = Failure, reg_group = None, reg_target = MyService,
                            reg_key = StrKey ''fallback'' \<rparr>] [] \<rparr>))
     = []
   \<and> handlers_for Failure
       (created_breaker None MyService (StrKey ''getComments'') getComments_descriptor
          (empty_world\<lparr> events :=
             registered [\<lparr> reg_event = Fallback, reg_group = None, reg_target = MyService,
                            reg_key = StrKey ''fallback'' \<rparr>,
                          \<lparr> reg_event = Failure, reg_group = None, reg_target = MyService,
                            reg_key = StrKey ''fallback'' \<rparr>] [] \<rparr>))
     = [UserFn 1]"
  by (simp add: eval_decoration)

lemma register_events_keeps_registered:
  "m \<in> reg \<Longrightarrow> m \<in> fst (register_events t fm ce (reg, b))"
  using register_events_registered [of reg t fm ce b] by blast

lemma register_events_new_registered:
  "m \<notin> reg \<Longrightarrow> m \<notin> snd ` set ce \<Longrightarrow> m \<notin> fst (register_events t fm ce (reg, b))"
  using register_events_registered [of reg t fm ce b] by blast

lemma shared_handler_loop:
  assumes dist: "distinct (map fst (xs @ (e1, m) # ys @ (e2, m) # zs))"
    and only: "m \<notin> snd ` set (xs @ ys @ zs)"
    and e1: "\<not> (e1 = Fallback \<and> truthy fm)"
    and f: "members t (StrKey m) = JFunction f"
    and b: "listeners b = []"
  shows "handlers_for e1 (snd (register_events t fm (xs @ (e1, m) # ys @ (e2, m) # zs) ({}, b)))
           = [f]
         \<and> handlers_for e2
             (snd (register_events t fm (xs @ (e1, m) # ys @ (e2, m) # zs) ({}, b))) = []"
proof -
  from dist have keys: "e1 \<notin> fst ` set xs" "e1 \<notin> fst ` set ys" "e1 \<notin> fst ` set zs"
    "e2 \<notin> fst ` set xs" "e2 \<notin> fst ` set ys" "e2 \<notin> fst ` set zs" "e1 \<noteq> e2"
    by auto
  from only have meths: "m \<notin> snd ` set xs" by auto
  obtain reg1 b1 where s1: "register_events t fm xs ({}, b) = (reg1, b1)"
    by (cases "register_events t fm xs ({}, b)")
  have m1: "m \<notin> reg1"
    using register_events_new_registered [of m "{}" xs t fm b] meths by (simp add: s1)
  have h1: "handlers_for e1 b1 = []" "handlers_for e2 b1 = []"
    using handlers_for_no_key [OF keys(1), of t fm "{}" b]
          handlers_for_no_key [OF keys(4), of t fm "{}" b] b
    by (simp_all add: s1 handlers_for_def)
  let ?b2 = "on e1 \<lparr> handler = f, this_target = t \<rparr> b1"
  have s2: "loop_body t fm (e1, m) (reg1, b1) = (insert m reg1, ?b2)"
    using e1 f m1 by (simp add: loop_body_attach)
  have h2: "handlers_for e1 ?b2 = [f]" "handlers_for e2 ?b2 = []"
    using h1 keys(7) by (simp_all add: handlers_for_on)
  obtain reg3 b3 where s3: "register_events t fm ys (insert m reg1, ?b2) = (reg3, b3)"
    by (cases "register_events t fm ys (insert m reg1, ?b2)")
  have m3: "m \<in> reg3"
    using register_events_keeps_registered [of m "insert m reg1" t fm ys ?b2]
    by (simp add: s3)
  have h3: "handlers_for e1 b3 = [f]" "handlers_for e2 b3 = []"
    using handlers_for_no_key [OF keys(2), of t fm "insert m reg1" ?b2]
          handlers_for_no_key [OF keys(5), of t fm "insert m reg1" ?b2] h2
    by (simp_all add: s3)
  have s4: "loop_body t fm (e2, m) (reg3, b3) = (reg3, b3)"
    using m3 by (simp add: loop_body_skip)
  have h5: "handlers_for e1 (snd (register_events t fm zs (reg3, b3))) = [f]"
    "handlers_for e2 (snd (register_events t fm zs (reg3, b3))) = []"
    using handlers_for_no_key [OF keys(3), of t fm reg3 b3]
          handlers_for_no_key [OF keys(6), of t fm reg3 b3] h3
    by simp_all
  have "register_events t fm (xs @ (e1, m) # ys @ (e2, m) # zs) ({}, b)
        = register_events t fm zs (reg3, b3)"
    by (simp add: register_events_append s1 s2 s3 s4)
  with h5 show ?thesis by simp
qed

text \<open>
  Claim C10, amended. When the registry, built by \<open>onEvent\<close>, holds one method name
  \<open>m\<close> under exactly two event names of a class and group, the one that comes first in
  the map's iteration order is not \<open>fallback\<close> (or \<open>m\<close> is the empty name), and \<open>m\<close> is
  a function of the target, then the breaker gets that method as its listener for that
  first event name, and no listener at all for the second.
\<close>

theorem shared_handler_attached_for_first_event_only:
  assumes "events w = registered rs []"
    and "circuit_events (events w) (constructor_name target) (group_of params)
           = xs @ (e1, m) # ys @ (e2, m) # zs"
    and "m \<notin> snd ` set (xs @ ys @ zs)"
    and "e1 \<noteq> Fallback \<or> m = []"
    and "members target (StrKey m) = JFunction f"
  shows "handlers_for e1 (created_breaker params target propertyKey descriptor w) = [f]
         \<and> handlers_for e2 (created_breaker params target propertyKey descriptor w) = []"
proof -
  let ?ce = "xs @ (e1, m) # ys @ (e2, m) # zs"
  have "distinct (map fst (circuit_events (events w) (constructor_name target)
                    (group_of params)))"
    by (simp add: assms(1) distinct_registered_empty)
  then have dist: "distinct (map fst ?ce)"
    by (simp only: assms(2))
  have not_skipped: "\<not> (e1 = Fallback \<and> truthy (map_get Fallback ?ce))"
  proof
    assume skipped: "e1 = Fallback \<and> truthy (map_get Fallback ?ce)"
    then have "(Fallback, m) \<in> set ?ce" by simp
    from map_get_of_entry [OF dist this] have "map_get Fallback ?ce = Some m" .
    with skipped have "m \<noteq> []" by simp
    with skipped assms(4) show False by simp
  qed
  have "listeners (new_OpossumCircuitBreaker (value descriptor) (opt params)) = []"
    by (simp add: new_OpossumCircuitBreaker_def)
  from shared_handler_loop [OF dist assms(3) not_skipped assms(5) this]
  show ?thesis
    by (simp add: created_breaker_eq Let_def assms(2))
qed

text \<open>
  \<open>openEvent\<close> registered for \<open>open\<close> and then for \<open>close\<close>: it listens to \<open>open\<close>, and
  \<open>close\<close> has no listener.
\<close>

theorem shared_handler_attached_for_first_event_only_witness:
  "handlers_for Open
       (created_breaker None MyService (StrKey ''getComments'') getComments_descriptor
          (empty_world\<lparr> events :=
             registered [\<lparr> reg_event = Open, reg_group = None, reg_target = MyService,
                            reg_key = StrKey ''openEvent'' \<rparr>,
                          \<lparr> reg_event = Close, reg_group = None, reg_target = MyService,
                            reg_key = StrKey ''openEvent'' \<rparr>] [] \<rparr>))
     = [UserFn 4]
   \<and> handlers_for Close
       (created_breaker None MyService (StrKey ''getComments'') getComments_descriptor
          (empty_world\<lparr> events :=
             registered [\<lparr> reg_event = Open, reg_group = None, reg_target = MyService,
                            reg_key = StrKey ''openEvent'' \<rparr>,
                          \<lparr> reg_event = Close, reg_group = None, reg_target = MyService,
                            reg_key = StrKey ''openEvent'' \<rparr>] [] \<rparr>))
     = []"
proof -
  let ?rs = "[\<lparr> reg_event = Open, reg_group = None, reg_target = MyService,
                 reg_key = StrKey ''openEvent'' \<rparr>,
               \<lparr> reg_event = Close, reg_group = None, reg_target = MyService,
                 reg_key = StrKey ''openEvent'' \<rparr>]"
  let ?w = "empty_world\<lparr> events := registered ?rs [] \<rparr>"
  have built: "events ?w = registered ?rs []" by simp
  have order: "circuit_events (events ?w) (constructor_name MyService) (group_of None)
                 = [] @ (Open, ''openEvent'') # [] @ (Close, ''openEvent'') # []"
    by (simp add: circuit_events_def onEvent_def map_has_def group_of_def default_params_def
        MyService_def Let_def)
  have only: "''openEvent'' \<notin> snd ` set ([] @ [] @ ([] :: (EventType \<times> string) list))"
    by simp
  have first: "Open \<noteq> Fallback \<or> ''openEvent'' = []" by simp
  have is_fn: "members MyService (StrKey ''openEvent'') = JFunction (UserFn 4)"
    by (simp add: MyService_def)
  show ?thesis
    by (rule shared_handler_attached_for_first_event_only [OF built order only first is_fn])
qed

section \<open>The fallback handler\<close>

lemma fallback_function_created:
  "fallback_function (created_breaker p t k d w) =
     (let fm = map_get Fallback (circuit_events (events w) (constructor_name t) (group_of p))
      in if truthy fm \<and> is_function (members t (StrKey (nullish fm [])))
         then Some \<lparr> fallback_target = t, fallback_name = nullish fm [] \<rparr>
         else None)"
  by (simp add: created_breaker_eq Let_def install_fallback_def set_fallback_def
      register_events_fields new_OpossumCircuitBreaker_def)


text \<open>
  Claim C6. When the registry holds no \<open>fallback\<close> entry for the breaker's class and
  group, the decorator sets no fallback function, and a guarded call that the Execution
  Gate ends in a failure gives the caller that same error.
\<close>

theorem no_fallback_error_propagates:
  assumes "map_get Fallback
             (circuit_events (events w) (constructor_name target) (group_of params)) = None"
    and "gate (created_breaker params target propertyKey descriptor w) args = Rejected err"
  shows "fallback_function (created_breaker params target propertyKey descriptor w) = None
         \<and> call_wrapper (fire call gate)
             (snd (CircuitBreaker params target propertyKey descriptor w))
             (wrapped_operation params target propertyKey descriptor w) args
           = Some (Rejected err)"
proof -
  have fb: "fallback_function (created_breaker params target propertyKey descriptor w) = None"
    using assms(1) by (simp add: fallback_function_created)
  have "fire call gate (created_breaker params target propertyKey descriptor w) args
          = Rejected err"
    using assms(2) by (simp add: fire_def fb)
  with fb show ?thesis
    by (simp add: call_wrapper_def wrapped_operation_eq heap_CircuitBreaker)
qed




text \<open>
  \<open>getComments\<close> called with one argument and timed out, when only \<open>openEvent\<close> is
  registered: the timeout reaches the caller.
\<close>

theorem no_fallback_error_propagates_witness:
  "map_get Fallback
     (circuit_events
        (events (empty_world\<lparr> events := onEvent Open None MyService
                                           (StrKey ''openEvent'') [] \<rparr>))
        (constructor_name MyService) (group_of None)) = None
   \<and> call_wrapper (fire echo timed_out)
        (snd (CircuitBreaker None MyService (StrKey ''getComments'') getComments_descriptor
           (empty_world\<lparr> events := onEvent Open None MyService
                                      (StrKey ''openEvent'') [] \<rparr>)))
        (wrapped_operation None MyService (StrKey ''getComments'') getComments_descriptor
           (empty_world\<lparr> events := onEvent Open None MyService
                                      (StrKey ''openEvent'') [] \<rparr>))
        [JString ''post-1'']
      = Some (Rejected (JError ''TimeoutError''))"
proof -
  let ?w = "empty_world\<lparr> events := onEvent Open None MyService
                                      (StrKey ''openEvent'') [] \<rparr>"
  have entry: "map_get Fallback
     (circuit_events (events ?w) (constructor_name MyService) (group_of None)) = None"
    by (simp add: circuit_events_def onEvent_def map_has_def map_get_def group_of_def
        default_params_def MyService_def Let_def)
  have rejected: "timed_out (created_breaker None MyService (StrKey ''getComments'')
                 getComments_descriptor ?w) [JString ''post-1'']
              = Rejected (JError ''TimeoutError'')"
    by (simp add: timed_out_def)
  from no_fallback_error_propagates
         [where gate = timed_out and call = echo, OF entry rejected] entry
  show ?thesis by simp
qed

section \<open>Class names and groups\<close>

text \<open>
  Claim C7, amended. The registry knows a class by \<open>target.constructor.name\<close> only.
  Listeners are attached when the decorator runs, from the registry entry of the
  breaker's class name and group, with \<open>default\<close> for a group left out on either side.
  A registration made by \<open>onEvent\<close> under another class name or another group leaves the
  breaker exactly as it would be without it; and every listener of a breaker is a method
  of the decorated target itself, bound to that target, whose name the registry holds for
  that target's class name and the breaker's group.
\<close>

theorem listeners_come_from_own_class_name_and_group:
  "(constructor_name tgt \<noteq> constructor_name target \<or> nullish g ''default'' \<noteq> group_of params
      \<longrightarrow> created_breaker params target propertyKey descriptor
            (w\<lparr> events := onEvent eventName g tgt key (events w) \<rparr>)
          = created_breaker params target propertyKey descriptor w)
   \<and> (\<forall>(e, l) \<in> set (listeners (created_breaker params target propertyKey descriptor w)).
        this_target l = target
        \<and> (\<exists>m. (e, m) \<in> set (circuit_events (events w) (constructor_name target)
                                 (group_of params))
                 \<and> members target (StrKey m) = JFunction (handler l)))"
proof (intro conjI impI)
  assume "constructor_name tgt \<noteq> constructor_name target
          \<or> nullish g ''default'' \<noteq> group_of params"
  then show "created_breaker params target propertyKey descriptor
            (w\<lparr> events := onEvent eventName g tgt key (events w) \<rparr>)
          = created_breaker params target propertyKey descriptor w"
    by (simp add: created_breaker_eq circuit_events_unchanged)
next
  show "\<forall>(e, l) \<in> set (listeners (created_breaker params target propertyKey descriptor w)).
        this_target l = target
        \<and> (\<exists>m. (e, m) \<in> set (circuit_events (events w) (constructor_name target)
                                 (group_of params))
                 \<and> members target (StrKey m) = JFunction (handler l))"
    using created_listeners_origin by fast
qed

text \<open>
  In \<open>MyService\<close>, a handler registered for the group \<open>database\<close> does not change the
  breaker of the default group, whose one listener is \<open>openEvent\<close>, registered for the
  default group.
\<close>

theorem listeners_come_from_own_class_name_and_group_witness:
  "nullish (Some ''database'') ''default'' \<noteq> group_of None
   \<and> created_breaker None MyService (StrKey ''getComments'') getComments_descriptor
       (empty_world\<lparr> events := onEvent HalfOpen (Some ''database'') MyService
                                  (StrKey ''halfOpenEvent'')
                                  (onEvent Open None MyService (StrKey ''openEvent'') []) \<rparr>)
     = created_breaker None MyService (StrKey ''getComments'') getComments_descriptor
       (empty_world\<lparr> events := onEvent Open None MyService (StrKey ''openEvent'') [] \<rparr>)
   \<and> (Open, \<lparr> handler = UserFn 4, this_target = MyService \<rparr>)
       \<in> set (listeners (created_breaker None MyService (StrKey ''getComments'')
            getComments_descriptor
            (empty_world\<lparr> events := onEvent Open None MyService (StrKey ''openEvent'') [] \<rparr>)))
   \<and> (Open, ''openEvent'') \<in> set (circuit_events
          (onEvent Open None MyService (StrKey ''openEvent'') [])
          (constructor_name MyService) (group_of None))
   \<and> members MyService (StrKey ''openEvent'') = JFunction (UserFn 4)"
  using listeners_come_from_own_class_name_and_group [where tgt = MyService and target = MyService
     and g = "Some ''database''" and params = None and propertyKey = "StrKey ''getComments''"
     and descriptor = getComments_descriptor and eventName = HalfOpen
     and key = "StrKey ''halfOpenEvent''"
     and w = "empty_world\<lparr> events := onEvent Open None MyService (StrKey ''openEvent'') [] \<rparr>"]
  by (simp add: eval_decoration)

text \<open>
  Claim C7 as stated fails for two classes of one name: \<open>MyService\<close> registers nothing,
  and its breaker has no listener; once the class \<open>MyService\<close> of another module has
  registered its own \<open>openEvent\<close>, the breaker of the first class gets a listener for
  \<open>open\<close>, the first class's \<open>openEvent\<close>.
\<close>

theorem same_class_name_shares_listeners_counterexample:
  "members MyService_of_other_module (StrKey ''getComments'') = JUndefined
   \<and> members MyService (StrKey ''getComments'') = JFunction (UserFn 0)
   \<and> listeners (created_breaker None MyService (StrKey ''getComments'')
         getComments_descriptor empty_world) = []
   \<and> listeners (created_breaker None MyService (StrKey ''getComments'')
         getComments_descriptor
         (empty_world\<lparr> events := onEvent Open None MyService_of_other_module
                                    (StrKey ''openEvent'') [] \<rparr>))
     = [(Open, \<lparr> handler = UserFn 4, this_target = MyService \<rparr>)]"
  by (simp add: eval_decoration MyService_of_other_module_def)

end
